theory Spec2Isabelle
  imports Main "HOL-Library.Char_ord" "HOL-Library.List_Lexorder" "HOL-Library.Multiset"
begin

section \<open>Python values, errors and dictionaries\<close>

text \<open>
  The issue records and the metadata documents of the program are Python dictionaries
  with string keys (\<^verbatim>\<open>Dict[str, Any]\<close>). A dictionary is an association list in
  insertion order, read with \<open>map_of\<close>. The values are the values that the API client
  produces and that \<^verbatim>\<open>json.load\<close> returns on a document without floats and
  booleans: None, integers, strings, lists and dictionaries.
  A string is a list of characters, each one code point below 256.
\<close>

datatype pyval =
    PNone
  | PInt int
  | PStr string
  | PList "pyval list"
  | PDict "(string \<times> pyval) list"

type_synonym dict = "(string \<times> pyval) list"

text \<open>Every exception the modelled code can raise is a value.\<close>

datatype error =
    KeyError string
  | TypeError
  | AttributeError
  | ValueError
  | JSONDecodeError
  | FileExistsError
  | FileNotFoundError
  | IsADirectoryError
  | NotADirectoryError

definition bnd :: "error + 'a \<Rightarrow> ('a \<Rightarrow> error + 'b) \<Rightarrow> error + 'b" where
  "bnd m f = (case m of Inl e \<Rightarrow> Inl e | Inr v \<Rightarrow> f v)"

text \<open>
  The library functions the program calls and that are not modelled here are the fields
  of one record: the SHA-256 hex digest of a text, \<^verbatim>\<open>yaml.dump(...).strip()\<close> of the
  front matter, \<^verbatim>\<open>sorted\<close> on a list that is not a list of strings, \<^verbatim>\<open>repr\<close> of a list
  or a dictionary, and \<^verbatim>\<open>int\<close> of a string (None when it raises ValueError).
\<close>

record pylib =
  sha256 :: "string \<Rightarrow> string"
  yaml_dump :: "pyval \<Rightarrow> string"
  sorted_other :: "pyval list \<Rightarrow> error + pyval list"
  py_repr :: "pyval \<Rightarrow> string"
  parse_int :: "string \<Rightarrow> int option"

text \<open>\<^verbatim>\<open>d[k]\<close> on a dictionary: KeyError when the key is absent.\<close>

definition getitem :: "dict \<Rightarrow> string \<Rightarrow> error + pyval" where
  "getitem d k = (case map_of d k of None \<Rightarrow> Inl (KeyError k) | Some v \<Rightarrow> Inr v)"

text \<open>\<^verbatim>\<open>d.get(k)\<close> and \<^verbatim>\<open>d.get(k, default)\<close> on a dictionary.\<close>

definition dict_get :: "dict \<Rightarrow> string \<Rightarrow> pyval \<Rightarrow> pyval" where
  "dict_get d k dflt = (case map_of d k of None \<Rightarrow> dflt | Some v \<Rightarrow> v)"

text \<open>\<^verbatim>\<open>v.get(k, default)\<close> on any value: only dictionaries have the method.\<close>

fun py_get :: "pyval \<Rightarrow> string \<Rightarrow> pyval \<Rightarrow> error + pyval" where
  "py_get (PDict d) k dflt = Inr (dict_get d k dflt)"
| "py_get _ k dflt = Inl AttributeError"

text \<open>\<^verbatim>\<open>v[k]\<close> with a string \<open>k\<close> on any value: only dictionaries take string subscripts.\<close>

fun subscript :: "pyval \<Rightarrow> string \<Rightarrow> error + pyval" where
  "subscript (PDict d) k = getitem d k"
| "subscript _ k = Inl TypeError"

text \<open>Storing under a key: the value of an existing key is replaced in place.\<close>

fun setitem :: "('k \<times> 'v) list \<Rightarrow> 'k \<Rightarrow> 'v \<Rightarrow> ('k \<times> 'v) list" where
  "setitem [] k v = [(k, v)]"
| "setitem (kv # d) k v = (if fst kv = k then (k, v) # d else kv # setitem d k v)"

text \<open>\<^verbatim>\<open>v[k] = x\<close> with a string \<open>k\<close> on any value.\<close>

fun py_setitem :: "pyval \<Rightarrow> string \<Rightarrow> pyval \<Rightarrow> error + pyval" where
  "py_setitem (PDict d) k x = Inr (PDict (setitem d k x))"
| "py_setitem _ k x = Inl TypeError"

text \<open>
  \<^verbatim>\<open>a == b\<close>: dictionaries are equal when they have the same keys with equal values,
  in any order.
\<close>

fun py_eq :: "pyval \<Rightarrow> pyval \<Rightarrow> bool" where
  "py_eq PNone PNone = True"
| "py_eq (PInt a) (PInt b) = (a = b)"
| "py_eq (PStr a) (PStr b) = (a = b)"
| "py_eq (PList a) (PList b) = list_all2 py_eq a b"
| "py_eq (PDict a) (PDict b) =
     (length a = length b \<and>
      (\<forall>kv \<in> set a. case map_of b (fst kv) of None \<Rightarrow> False | Some v \<Rightarrow> py_eq (snd kv) v))"
| "py_eq _ _ = False"

text \<open>
  \<^verbatim>\<open>k in v\<close> for a string \<open>k\<close>: a key of a dictionary, an element of a list, a
  substring of a string; None and integers are not containers.
\<close>

fun is_substring :: "string \<Rightarrow> string \<Rightarrow> bool" where
  "is_substring p [] = (p = [])"
| "is_substring p (c # cs) = (take (length p) (c # cs) = p \<or> is_substring p cs)"

fun py_contains :: "pyval \<Rightarrow> string \<Rightarrow> error + bool" where
  "py_contains (PDict d) k = Inr (map_of d k \<noteq> None)"
| "py_contains (PList xs) k = Inr (PStr k \<in> set xs)"
| "py_contains (PStr s) k = Inr (is_substring k s)"
| "py_contains PNone k = Inl TypeError"
| "py_contains (PInt n) k = Inl TypeError"

text \<open>
  Iterating a value: a list yields its elements, a string its characters, a dictionary its
  keys; None and integers are not iterable.
\<close>

fun py_iter :: "pyval \<Rightarrow> error + pyval list" where
  "py_iter (PList xs) = Inr xs"
| "py_iter (PStr s) = Inr (map (\<lambda>c. PStr [c]) s)"
| "py_iter (PDict d) = Inr (map (\<lambda>kv. PStr (fst kv)) d)"
| "py_iter PNone = Inl TypeError"
| "py_iter (PInt n) = Inl TypeError"

fun is_PStr :: "pyval \<Rightarrow> bool" where
  "is_PStr (PStr s) = True"
| "is_PStr _ = False"

fun str_of :: "pyval \<Rightarrow> string" where
  "str_of (PStr s) = s"
| "str_of _ = []"

text \<open>
  \<^verbatim>\<open>sorted(v)\<close>: the elements of the iterable in ascending order. Strings compare
  lexicographically by code point. On elements that are not all strings the result is
  the one of the library.
\<close>

definition py_sorted :: "pylib \<Rightarrow> pyval \<Rightarrow> error + pyval list" where
  "py_sorted lib v = bnd (py_iter v) (\<lambda>xs.
     if list_all is_PStr xs then Inr (map PStr (sort (map str_of xs)))
     else sorted_other lib xs)"

text \<open>Running a fallible function over a list, stopping at the first error.\<close>

fun mapM :: "('a \<Rightarrow> error + 'b) \<Rightarrow> 'a list \<Rightarrow> error + 'b list" where
  "mapM f [] = Inr []"
| "mapM f (x # xs) = bnd (f x) (\<lambda>y. bnd (mapM f xs) (\<lambda>ys. Inr (y # ys)))"

text \<open>The truth value of a Python value.\<close>

fun truthy :: "pyval \<Rightarrow> bool" where
  "truthy PNone = False"
| "truthy (PInt n) = (n \<noteq> 0)"
| "truthy (PStr s) = (s \<noteq> [])"
| "truthy (PList xs) = (xs \<noteq> [])"
| "truthy (PDict d) = (d \<noteq> [])"

section \<open>Rendering values as text\<close>

text \<open>\<^verbatim>\<open>str(n)\<close> of an integer: decimal digits, with a minus sign when negative.\<close>

definition digit_char :: "nat \<Rightarrow> char" where
  "digit_char d = char_of (48 + d)"

fun show_nat :: "nat \<Rightarrow> string" where
  "show_nat n = (if n < 10 then [digit_char n] else show_nat (n div 10) @ [digit_char (n mod 10)])"

declare show_nat.simps [simp del]

definition show_int :: "int \<Rightarrow> string" where
  "show_int i = (if i < 0 then CHR ''-'' # show_nat (nat (- i)) else show_nat (nat i))"

text \<open>\<^verbatim>\<open>str(v)\<close> and the formatting of \<open>v\<close> inside an f-string.\<close>

fun py_str :: "pylib \<Rightarrow> pyval \<Rightarrow> string" where
  "py_str lib PNone = ''None''"
| "py_str lib (PInt n) = show_int n"
| "py_str lib (PStr s) = s"
| "py_str lib (PList xs) = py_repr lib (PList xs)"
| "py_str lib (PDict d) = py_repr lib (PDict d)"

text \<open>
  \<^verbatim>\<open>json.dumps(v, sort_keys=True)\<close> with the default separators and
  \<^verbatim>\<open>ensure_ascii=True\<close>: the quote and the backslash are escaped with a backslash, the
  five control characters with a short name have it, and every other character outside
  the printable ASCII range becomes \<^verbatim>\<open>\u00XX\<close> with lower-case hexadecimal digits.
\<close>

definition hex_char :: "nat \<Rightarrow> char" where
  "hex_char d = (if d < 10 then char_of (48 + d) else char_of (87 + d))"

definition json_escape :: "char \<Rightarrow> string" where
  "json_escape c =
     (if c = CHR ''\"'' then [CHR 0x5C, CHR ''\"'']
      else if c = CHR 0x5C then [CHR 0x5C, CHR 0x5C]
      else if c = CHR 0x0A then [CHR 0x5C, CHR ''n'']
      else if c = CHR 0x0D then [CHR 0x5C, CHR ''r'']
      else if c = CHR 0x09 then [CHR 0x5C, CHR ''t'']
      else if c = CHR 0x08 then [CHR 0x5C, CHR ''b'']
      else if c = CHR 0x0C then [CHR 0x5C, CHR ''f'']
      else if 32 \<le> (of_char c :: nat) \<and> (of_char c :: nat) \<le> 126 then [c]
      else [CHR 0x5C, CHR ''u'', CHR ''0'', CHR ''0'',
            hex_char ((of_char c :: nat) div 16), hex_char ((of_char c :: nat) mod 16)])"

definition json_string :: "string \<Rightarrow> string" where
  "json_string s = CHR ''\"'' # concat (map json_escape s) @ [CHR ''\"'']"

text \<open>\<^verbatim>\<open>', '.join(parts)\<close>.\<close>

fun join_comma :: "string list \<Rightarrow> string" where
  "join_comma [] = []"
| "join_comma [x] = x"
| "join_comma (x # y # ys) = x @ '', '' @ join_comma (y # ys)"

fun json_dumps :: "pyval \<Rightarrow> string" where
  "json_dumps PNone = ''null''"
| "json_dumps (PInt n) = show_int n"
| "json_dumps (PStr s) = json_string s"
| "json_dumps (PList xs) = ''['' @ join_comma (map json_dumps xs) @ '']''"
| "json_dumps (PDict d) =
     ''{'' @ join_comma (map (\<lambda>kv. json_string (fst kv) @ '': '' @ json_dumps (snd kv))
                             (sort_key fst d)) @ ''}''"

section \<open>The canonical hasher\<close>

text \<open>
  \<^verbatim>\<open>IssueStorage._calculate_hash\<close>. The dictionary display evaluates its values in
  source order, so the first failing read is the one reported. The comprehension over the
  comments builds one three-key dictionary per comment.
\<close>

definition hash_comment :: "pyval \<Rightarrow> error + pyval" where
  "hash_comment c =
     bnd (subscript c ''author'') (\<lambda>a.
     bnd (subscript c ''body'') (\<lambda>b.
     bnd (subscript c ''created_at'') (\<lambda>t.
     Inr (PDict [(''author'', a), (''body'', b), (''created_at'', t)]))))"

definition hash_data :: "pylib \<Rightarrow> dict \<Rightarrow> error + pyval" where
  "hash_data lib issue_data =
     bnd (getitem issue_data ''number'') (\<lambda>number.
     bnd (getitem issue_data ''title'') (\<lambda>title.
     bnd (getitem issue_data ''body'') (\<lambda>body.
     bnd (getitem issue_data ''state'') (\<lambda>state.
     bnd (getitem issue_data ''labels'') (\<lambda>labels.
     bnd (py_sorted lib labels) (\<lambda>sorted_labels.
     bnd (getitem issue_data ''assignees'') (\<lambda>assignees.
     bnd (py_sorted lib assignees) (\<lambda>sorted_assignees.
     bnd (getitem issue_data ''updated_at'') (\<lambda>updated_at.
     bnd (getitem issue_data ''comments'') (\<lambda>comments.
     bnd (py_iter comments) (\<lambda>cs.
     bnd (mapM hash_comment cs) (\<lambda>hcs.
     Inr (PDict [(''number'', number), (''title'', title), (''body'', body),
                 (''state'', state), (''labels'', PList sorted_labels),
                 (''assignees'', PList sorted_assignees), (''updated_at'', updated_at),
                 (''comments'', PList hcs)])))))))))))))"

text \<open>
  The text that is hashed, and the digest. The JSON text is pure ASCII, so its UTF-8
  encoding is the text itself.
\<close>

definition json_str :: "pylib \<Rightarrow> dict \<Rightarrow> error + string" where
  "json_str lib issue_data = bnd (hash_data lib issue_data) (\<lambda>h. Inr (json_dumps h))"

definition calculate_hash :: "pylib \<Rightarrow> dict \<Rightarrow> error + string" where
  "calculate_hash lib issue_data = bnd (json_str lib issue_data) (\<lambda>s. Inr (sha256 lib s))"

section \<open>The file system\<close>

text \<open>
  A path is the list of its components below the working directory, which is the empty
  path and always exists. The state holds the directories and the files that exist. A
  file whose text is a JSON document is kept as the value \<^verbatim>\<open>json.load\<close> returns for it
  (\<^verbatim>\<open>json.dump\<close> followed by \<^verbatim>\<open>json.load\<close> gives the value back); \<open>Text\<close> is a file
  whose text is not JSON. A component \<^verbatim>\<open>..\<close> is not interpreted.
\<close>

type_synonym path = "string list"

datatype content = Text string | JsonDoc pyval

record filesys =
  dirs :: "path list"
  files :: "(path \<times> content) list"

text \<open>The result of an operation on the store: the new state, and a value or an error.\<close>

type_synonym 'a io = "filesys \<times> (error + 'a)"

definition sbnd :: "'a io \<Rightarrow> (filesys \<Rightarrow> 'a \<Rightarrow> 'b io) \<Rightarrow> 'b io" where
  "sbnd m f = (case snd m of Inl e \<Rightarrow> (fst m, Inl e) | Inr v \<Rightarrow> f (fst m) v)"

text \<open>
  \<^verbatim>\<open>Path / name\<close> for a name that does not start with a slash: the name is cut at its
  slashes, and empty components and \<^verbatim>\<open>.\<close> are dropped.
\<close>

fun split_on :: "char \<Rightarrow> string \<Rightarrow> string list" where
  "split_on sep [] = [[]]"
| "split_on sep (c # cs) =
     (if c = sep then [] # split_on sep cs
      else (case split_on sep cs of [] \<Rightarrow> [[c]] | w # ws \<Rightarrow> (c # w) # ws))"

definition path_join :: "path \<Rightarrow> string \<Rightarrow> path" where
  "path_join p n = p @ filter (\<lambda>w. w \<noteq> [] \<and> w \<noteq> ''.'') (split_on (CHR ''/'') n)"

definition dir_exists :: "filesys \<Rightarrow> path \<Rightarrow> bool" where
  "dir_exists fs p = (p = [] \<or> p \<in> set (dirs fs))"

definition file_exists :: "filesys \<Rightarrow> path \<Rightarrow> bool" where
  "file_exists fs p = (map_of (files fs) p \<noteq> None)"

text \<open>
  Resolving a path walks its components from the working directory: every component
  before the last has to be a directory. The first one that is a file gives
  NotADirectoryError, the first one that does not exist FileNotFoundError.
\<close>

fun walk :: "filesys \<Rightarrow> path \<Rightarrow> string list \<Rightarrow> error option" where
  "walk fs pre [] = None"
| "walk fs pre [x] = None"
| "walk fs pre (x # y # ys) =
     (if dir_exists fs (pre @ [x]) then walk fs (pre @ [x]) (y # ys)
      else if file_exists fs (pre @ [x]) then Some NotADirectoryError
      else Some FileNotFoundError)"

definition parent_error :: "filesys \<Rightarrow> path \<Rightarrow> error option" where
  "parent_error fs p = walk fs [] p"

text \<open>\<^verbatim>\<open>Path.exists()\<close>: false also when the path cannot be resolved.\<close>

definition path_exists :: "filesys \<Rightarrow> path \<Rightarrow> bool" where
  "path_exists fs p = (parent_error fs p = None \<and> (dir_exists fs p \<or> file_exists fs p))"

text \<open>
  \<^verbatim>\<open>Path.mkdir(exist_ok=True)\<close>: nothing happens when the directory exists; a file in
  its place, or a parent that is missing (\<^verbatim>\<open>parents\<close> is not set), is an error.
\<close>

definition mkdir_exist_ok :: "filesys \<Rightarrow> path \<Rightarrow> unit io" where
  "mkdir_exist_ok fs p =
     (case parent_error fs p of
        Some e \<Rightarrow> (fs, Inl e)
      | None \<Rightarrow>
          if dir_exists fs p then (fs, Inr ())
          else if file_exists fs p then (fs, Inl FileExistsError)
          else (fs\<lparr>dirs := dirs fs @ [p]\<rparr>, Inr ()))"

text \<open>\<^verbatim>\<open>open(p, 'w')\<close> followed by writing the whole content.\<close>

definition write_file :: "filesys \<Rightarrow> path \<Rightarrow> content \<Rightarrow> unit io" where
  "write_file fs p c =
     (case parent_error fs p of
        Some e \<Rightarrow> (fs, Inl e)
      | None \<Rightarrow>
          if dir_exists fs p then (fs, Inl IsADirectoryError)
          else (fs\<lparr>files := setitem (files fs) p c\<rparr>, Inr ()))"

text \<open>\<^verbatim>\<open>open(p, 'r')\<close> followed by \<^verbatim>\<open>json.load\<close>.\<close>

definition read_json :: "filesys \<Rightarrow> path \<Rightarrow> error + pyval" where
  "read_json fs p =
     (case parent_error fs p of
        Some e \<Rightarrow> Inl e
      | None \<Rightarrow>
          if dir_exists fs p then Inl IsADirectoryError
          else (case map_of (files fs) p of
                  None \<Rightarrow> Inl FileNotFoundError
                | Some (Text s) \<Rightarrow> Inl JSONDecodeError
                | Some (JsonDoc v) \<Rightarrow> Inr v))"

text \<open>
  A path resolves to a directory when it and all its ancestors are directories. A path is
  absent when nothing exists at it or below it.
\<close>

definition is_dir :: "filesys \<Rightarrow> path \<Rightarrow> bool" where
  "is_dir fs p = list_all (\<lambda>k. dir_exists fs (take k p)) [0..<Suc (length p)]"

definition absent :: "filesys \<Rightarrow> path \<Rightarrow> bool" where
  "absent fs p =
     (p \<noteq> [] \<and> list_all (\<lambda>q. take (length p) q \<noteq> p) (dirs fs @ map fst (files fs)))"

text \<open>A state is well formed when no path is both a directory and a file.\<close>

definition wf_filesys :: "filesys \<Rightarrow> bool" where
  "wf_filesys fs = (\<not> file_exists fs [] \<and> list_all (\<lambda>p. \<not> file_exists fs p) (dirs fs))"

section \<open>The storage layer\<close>

text \<open>
  \<^verbatim>\<open>IssueStorage.__init__\<close>: the storage object is its base directory, which the
  constructor creates.
\<close>

definition init_storage :: "path \<Rightarrow> filesys \<Rightarrow> unit io" where
  "init_storage base_dir fs = mkdir_exist_ok fs base_dir"

text \<open>\<^verbatim>\<open>IssueStorage.get_repo_dir\<close>, with \<^verbatim>\<open>repo_name.replace('/', '-')\<close>.\<close>

definition repo_dir_name :: "string \<Rightarrow> string" where
  "repo_dir_name repo_name = map (\<lambda>c. if c = CHR ''/'' then CHR ''-'' else c) repo_name"

definition repo_path :: "path \<Rightarrow> string \<Rightarrow> path" where
  "repo_path base_dir repo_name = path_join base_dir (repo_dir_name repo_name)"

definition get_repo_dir :: "path \<Rightarrow> filesys \<Rightarrow> string \<Rightarrow> path io" where
  "get_repo_dir base_dir fs repo_name =
     (let repo_dir = repo_path base_dir repo_name
      in sbnd (mkdir_exist_ok fs repo_dir) (\<lambda>fs' u. (fs', Inr repo_dir)))"

definition issue_file :: "path \<Rightarrow> string \<Rightarrow> path" where
  "issue_file repo_dir issue_number = path_join repo_dir (''issue-'' @ issue_number @ ''.md'')"

definition metadata_file :: "path \<Rightarrow> path" where
  "metadata_file repo_dir = path_join repo_dir ''.metadata.json''"

text \<open>\<^verbatim>\<open>'\n'.join(lines)\<close>: every item has to be a string.\<close>

fun join_newline :: "string list \<Rightarrow> string" where
  "join_newline [] = []"
| "join_newline [x] = x"
| "join_newline (x # y # ys) = x @ [CHR 0x0A] @ join_newline (y # ys)"

definition join_lines :: "pyval list \<Rightarrow> error + string" where
  "join_lines lines =
     (if list_all is_PStr lines then Inr (join_newline (map str_of lines)) else Inl TypeError)"

text \<open>\<^verbatim>\<open>IssueStorage._generate_markdown\<close>.\<close>

definition comment_lines :: "pylib \<Rightarrow> pyval \<Rightarrow> error + pyval list" where
  "comment_lines lib comment =
     bnd (subscript comment ''author'') (\<lambda>a.
     bnd (subscript comment ''created_at'') (\<lambda>t.
     bnd (subscript comment ''body'') (\<lambda>b.
     Inr [PStr (''### Comment by '' @ py_str lib a @ '' on '' @ py_str lib t), PStr [], b, PStr []])))"

definition generate_markdown :: "pylib \<Rightarrow> dict \<Rightarrow> error + string" where
  "generate_markdown lib issue_data =
     bnd (getitem issue_data ''number'') (\<lambda>number.
     bnd (getitem issue_data ''title'') (\<lambda>title.
     bnd (getitem issue_data ''state'') (\<lambda>state.
     bnd (getitem issue_data ''labels'') (\<lambda>labels.
     bnd (getitem issue_data ''author'') (\<lambda>author.
     bnd (getitem issue_data ''created_at'') (\<lambda>created_at.
     bnd (getitem issue_data ''updated_at'') (\<lambda>updated_at.
     bnd (getitem issue_data ''assignees'') (\<lambda>assignees.
     bnd (getitem issue_data ''url'') (\<lambda>url.
     let frontmatter = [(''number'', number), (''title'', title), (''state'', state),
                        (''labels'', labels), (''author'', author),
                        (''created_at'', created_at), (''updated_at'', updated_at),
                        (''assignees'', assignees), (''url'', url)];
         frontmatter = (if truthy (dict_get issue_data ''closed_at'' PNone)
                        then setitem frontmatter ''closed_at'' (dict_get issue_data ''closed_at'' PNone)
                        else frontmatter);
         frontmatter = (if truthy (dict_get issue_data ''milestone'' PNone)
                        then setitem frontmatter ''milestone'' (dict_get issue_data ''milestone'' PNone)
                        else frontmatter);
         lines = [PStr ''---'', PStr (yaml_dump lib (PDict frontmatter)), PStr ''---'', PStr [],
                  PStr (''# '' @ py_str lib title), PStr []]
     in
     bnd (getitem issue_data ''body'') (\<lambda>body.
     let lines = (if truthy body then lines @ [body, PStr []] else lines) in
     bnd (getitem issue_data ''comments'') (\<lambda>comments.
     bnd (if truthy comments
          then bnd (py_iter comments) (\<lambda>cs.
               bnd (mapM (comment_lines lib) cs) (\<lambda>ls.
               Inr (lines @ [PStr ''## Comments'', PStr []] @ concat ls)))
          else Inr lines) (\<lambda>lines.
     join_lines lines))))))))))))"

text \<open>
  \<^verbatim>\<open>IssueStorage._update_metadata\<close>. It reads the metadata document as it is on disk,
  adds the two wrapper keys when they are absent, stores the entry of the issue under
  \<^verbatim>\<open>issues\<close> and writes the document back.
\<close>

definition ensure_key :: "pyval \<Rightarrow> string \<Rightarrow> error + pyval" where
  "ensure_key metadata k =
     bnd (py_contains metadata k) (\<lambda>present.
       if present then Inr metadata else py_setitem metadata k (PDict []))"

definition set_issue_entry :: "pyval \<Rightarrow> string \<Rightarrow> pyval \<Rightarrow> error + pyval" where
  "set_issue_entry metadata issue_number entry =
     bnd (subscript metadata ''issues'') (\<lambda>issues.
     bnd (py_setitem issues issue_number entry) (\<lambda>issues'.
     py_setitem metadata ''issues'' issues'))"

definition new_metadata :: "pylib \<Rightarrow> pyval \<Rightarrow> dict \<Rightarrow> error + pyval" where
  "new_metadata lib metadata issue_data =
     bnd (ensure_key metadata ''filters'') (\<lambda>metadata.
     bnd (ensure_key metadata ''issues'') (\<lambda>metadata.
     bnd (calculate_hash lib issue_data) (\<lambda>issue_hash.
     bnd (getitem issue_data ''number'') (\<lambda>number.
     bnd (getitem issue_data ''updated_at'') (\<lambda>updated_at.
     bnd (getitem issue_data ''state'') (\<lambda>state.
     set_issue_entry metadata (py_str lib number)
       (PDict [(''hash'', PStr issue_hash), (''updated_at'', updated_at), (''state'', state)])))))))"

definition update_metadata :: "pylib \<Rightarrow> path \<Rightarrow> filesys \<Rightarrow> string \<Rightarrow> dict \<Rightarrow> unit io" where
  "update_metadata lib base_dir fs repo_name issue_data =
     sbnd (get_repo_dir base_dir fs repo_name) (\<lambda>fs repo_dir.
       case (if path_exists fs (metadata_file repo_dir)
             then read_json fs (metadata_file repo_dir) else Inr (PDict [])) of
         Inl e \<Rightarrow> (fs, Inl e)
       | Inr metadata \<Rightarrow>
           (case new_metadata lib metadata issue_data of
              Inl e \<Rightarrow> (fs, Inl e)
            | Inr metadata' \<Rightarrow> write_file fs (metadata_file repo_dir) (JsonDoc metadata')))"

text \<open>\<^verbatim>\<open>IssueStorage.save_issue\<close>: the document is written first, then the metadata.\<close>

definition save_issue :: "pylib \<Rightarrow> path \<Rightarrow> filesys \<Rightarrow> string \<Rightarrow> dict \<Rightarrow> path io" where
  "save_issue lib base_dir fs repo_name issue_data =
     sbnd (get_repo_dir base_dir fs repo_name) (\<lambda>fs repo_dir.
       case getitem issue_data ''number'' of
         Inl e \<Rightarrow> (fs, Inl e)
       | Inr issue_number \<Rightarrow>
           (case generate_markdown lib issue_data of
              Inl e \<Rightarrow> (fs, Inl e)
            | Inr markdown_content \<Rightarrow>
                sbnd (write_file fs (issue_file repo_dir (py_str lib issue_number))
                        (Text markdown_content)) (\<lambda>fs u.
                sbnd (update_metadata lib base_dir fs repo_name issue_data) (\<lambda>fs u.
                (fs, Inr (issue_file repo_dir (py_str lib issue_number)))))))"

text \<open>\<^verbatim>\<open>IssueStorage.load_metadata\<close>, with the upgrade of the old flat format.\<close>

definition reserved_key :: "string \<Rightarrow> bool" where
  "reserved_key k = (k = ''filters'' \<or> k = ''issues'')"

definition empty_metadata :: pyval where
  "empty_metadata = PDict [(''filters'', PDict []), (''issues'', PDict [])]"

definition upgrade_metadata :: "pyval \<Rightarrow> error + pyval" where
  "upgrade_metadata metadata =
     bnd (py_contains metadata ''filters'') (\<lambda>present.
       if present then Inr metadata
       else (case metadata of
               PDict d \<Rightarrow>
                 Inr (PDict [(''filters'', PDict []),
                             (''issues'', PDict (filter (\<lambda>kv. \<not> reserved_key (fst kv)) d))])
             | _ \<Rightarrow> Inl AttributeError))"

definition load_metadata :: "path \<Rightarrow> filesys \<Rightarrow> string \<Rightarrow> pyval io" where
  "load_metadata base_dir fs repo_name =
     sbnd (get_repo_dir base_dir fs repo_name) (\<lambda>fs repo_dir.
       if \<not> path_exists fs (metadata_file repo_dir) then (fs, Inr empty_metadata)
       else (fs, bnd (read_json fs (metadata_file repo_dir)) upgrade_metadata))"

text \<open>\<^verbatim>\<open>IssueStorage.save_filters\<close> and \<^verbatim>\<open>IssueStorage.load_filters\<close>.\<close>

definition save_filters :: "path \<Rightarrow> filesys \<Rightarrow> string \<Rightarrow> pyval \<Rightarrow> unit io" where
  "save_filters base_dir fs repo_name filters =
     sbnd (get_repo_dir base_dir fs repo_name) (\<lambda>fs repo_dir.
     sbnd (load_metadata base_dir fs repo_name) (\<lambda>fs metadata.
       case py_setitem metadata ''filters'' filters of
         Inl e \<Rightarrow> (fs, Inl e)
       | Inr metadata' \<Rightarrow> write_file fs (metadata_file repo_dir) (JsonDoc metadata')))"

definition load_filters :: "path \<Rightarrow> filesys \<Rightarrow> string \<Rightarrow> pyval io" where
  "load_filters base_dir fs repo_name =
     sbnd (load_metadata base_dir fs repo_name) (\<lambda>fs metadata.
     (fs, py_get metadata ''filters'' (PDict [])))"

text \<open>\<^verbatim>\<open>IssueStorage.issue_exists\<close>.\<close>

definition issue_exists :: "path \<Rightarrow> filesys \<Rightarrow> string \<Rightarrow> int \<Rightarrow> bool io" where
  "issue_exists base_dir fs repo_name issue_number =
     sbnd (get_repo_dir base_dir fs repo_name) (\<lambda>fs repo_dir.
     (fs, Inr (path_exists fs (issue_file repo_dir (show_int issue_number)))))"

text \<open>
  \<^verbatim>\<open>IssueStorage.get_all_issue_numbers\<close>. The entries of the repository directory
  whose name matches \<^verbatim>\<open>issue-*.md\<close> are read; the number is \<^verbatim>\<open>int\<close> of the text
  between the first and the second dash of the stem, and a name on which it fails is
  skipped.
\<close>

definition children :: "filesys \<Rightarrow> path \<Rightarrow> string list" where
  "children fs d =
     remdups (map last (filter (\<lambda>p. p \<noteq> [] \<and> butlast p = d) (dirs fs @ map fst (files fs))))"

definition glob_issue :: "string \<Rightarrow> bool" where
  "glob_issue n = (9 \<le> length n \<and> take 6 n = ''issue-'' \<and> drop (length n - 3) n = ''.md'')"

definition stem_number :: "pylib \<Rightarrow> string \<Rightarrow> int list" where
  "stem_number lib n =
     (case split_on (CHR ''-'') (take (length n - 3) n) of
        a # b # rest \<Rightarrow> (case parse_int lib b of Some k \<Rightarrow> [k] | None \<Rightarrow> [])
      | _ \<Rightarrow> [])"

definition get_all_issue_numbers :: "pylib \<Rightarrow> path \<Rightarrow> filesys \<Rightarrow> string \<Rightarrow> int list io" where
  "get_all_issue_numbers lib base_dir fs repo_name =
     sbnd (get_repo_dir base_dir fs repo_name) (\<lambda>fs repo_dir.
       if \<not> path_exists fs repo_dir then (fs, Inr [])
       else (fs, Inr (sort (concat (map (stem_number lib)
                                        (filter glob_issue (children fs repo_dir)))))))"

section \<open>The change tracker\<close>

text \<open>
  \<^verbatim>\<open>ChangeTracker._detect_issue_changes\<close>. The stored metadata is the dictionary of the
  entry; the three texts are the ones of the source.
\<close>

definition detect_issue_changes :: "pylib \<Rightarrow> dict \<Rightarrow> dict \<Rightarrow> error + string list" where
  "detect_issue_changes lib current_issue stored_metadata =
     bnd (getitem current_issue ''state'') (\<lambda>state.
     let changes =
           (if \<not> py_eq (dict_get stored_metadata ''state'' PNone) state
            then [''State changed from '' @ [CHR 0x27] @
                  py_str lib (dict_get stored_metadata ''state'' (PStr ''unknown'')) @
                  [CHR 0x27] @ '' to '' @ [CHR 0x27] @ py_str lib state @ [CHR 0x27]]
            else [])
     in
     bnd (getitem current_issue ''updated_at'') (\<lambda>updated_at.
     let changes =
           (if \<not> py_eq (dict_get stored_metadata ''updated_at'' PNone) updated_at
            then changes @ [''Updated at '' @ py_str lib updated_at]
            else changes)
     in
     Inr (if changes = [] then [''Content modified''] else changes)))"

text \<open>
  \<^verbatim>\<open>ChangeTracker.detect_changes\<close>. The result has the three lists of the source; an
  element of \<open>updated\<close> is the issue with its change descriptors.
  \<^verbatim>\<open>int(issue_number)\<close> on the text of an integer gives the integer back.
\<close>

record changes =
  new :: "dict list"
  updated :: "(dict \<times> string list) list"
  unchanged :: "int list"

definition int_of_number :: "pylib \<Rightarrow> pyval \<Rightarrow> error + int" where
  "int_of_number lib number =
     (case number of
        PInt n \<Rightarrow> Inr n
      | _ \<Rightarrow> (case parse_int lib (py_str lib number) of Some k \<Rightarrow> Inr k | None \<Rightarrow> Inl ValueError))"

definition issue_key :: "pylib \<Rightarrow> dict \<Rightarrow> error + string" where
  "issue_key lib issue = bnd (getitem issue ''number'') (\<lambda>number. Inr (py_str lib number))"

definition classify_issue :: "pylib \<Rightarrow> dict \<Rightarrow> changes \<Rightarrow> dict \<Rightarrow> error + changes" where
  "classify_issue lib stored_issues ch issue =
     bnd (getitem issue ''number'') (\<lambda>number.
     bnd (calculate_hash lib issue) (\<lambda>current_hash.
     case map_of stored_issues (py_str lib number) of
       None \<Rightarrow> Inr (ch\<lparr>new := new ch @ [issue]\<rparr>)
     | Some (PDict entry) \<Rightarrow>
         if \<not> py_eq (PStr current_hash) (dict_get entry ''hash'' PNone)
         then bnd (detect_issue_changes lib issue entry) (\<lambda>change_details.
              Inr (ch\<lparr>updated := updated ch @ [(issue, change_details)]\<rparr>))
         else bnd (int_of_number lib number) (\<lambda>n.
              Inr (ch\<lparr>unchanged := unchanged ch @ [n]\<rparr>))
     | Some _ \<Rightarrow> Inl AttributeError))"

fun classify_all :: "pylib \<Rightarrow> dict \<Rightarrow> changes \<Rightarrow> dict list \<Rightarrow> error + changes" where
  "classify_all lib stored_issues ch [] = Inr ch"
| "classify_all lib stored_issues ch (issue # issues) =
     bnd (classify_issue lib stored_issues ch issue) (\<lambda>ch'.
     classify_all lib stored_issues ch' issues)"

definition detect_changes :: "pylib \<Rightarrow> path \<Rightarrow> filesys \<Rightarrow> string \<Rightarrow> dict list \<Rightarrow> changes io" where
  "detect_changes lib base_dir fs repo_name current_issues =
     sbnd (load_metadata base_dir fs repo_name) (\<lambda>fs metadata.
       (fs, bnd (py_get metadata ''issues'' (PDict [])) (\<lambda>stored.
            case stored of
              PDict stored_issues \<Rightarrow>
                bnd (mapM (issue_key lib) current_issues) (\<lambda>current_issue_numbers.
                classify_all lib stored_issues \<lparr>new = [], updated = [], unchanged = []\<rparr>
                  current_issues)
            | _ \<Rightarrow> Inl AttributeError)))"

section \<open>Well-formed records\<close>

text \<open>
  The records on which the hasher cannot fail: the eight keys it reads are present, the
  labels and the assignees are lists of strings, and the comments are a list of
  dictionaries that have the three keys read from each comment.
\<close>

definition tracked_keys :: "string list" where
  "tracked_keys = [''number'', ''title'', ''body'', ''state'', ''labels'', ''assignees'',
                   ''updated_at'', ''comments'']"

fun str_list :: "pyval \<Rightarrow> bool" where
  "str_list (PList xs) = list_all is_PStr xs"
| "str_list _ = False"

fun comment_keys :: "pyval \<Rightarrow> bool" where
  "comment_keys (PDict c) =
     (map_of c ''author'' \<noteq> None \<and> map_of c ''body'' \<noteq> None \<and> map_of c ''created_at'' \<noteq> None)"
| "comment_keys _ = False"

fun comment_list :: "pyval \<Rightarrow> bool" where
  "comment_list (PList cs) = list_all comment_keys cs"
| "comment_list _ = False"

definition hashable :: "dict \<Rightarrow> bool" where
  "hashable d =
     (map_of d ''number'' \<noteq> None \<and> map_of d ''title'' \<noteq> None \<and> map_of d ''body'' \<noteq> None \<and>
      map_of d ''state'' \<noteq> None \<and> map_of d ''updated_at'' \<noteq> None \<and>
      (case map_of d ''labels'' of Some v \<Rightarrow> str_list v | None \<Rightarrow> False) \<and>
      (case map_of d ''assignees'' of Some v \<Rightarrow> str_list v | None \<Rightarrow> False) \<and>
      (case map_of d ''comments'' of Some v \<Rightarrow> comment_list v | None \<Rightarrow> False))"

text \<open>The value a comment has under a key, and the part of a comment that is hashed.\<close>

fun comment_field :: "pyval \<Rightarrow> string \<Rightarrow> pyval" where
  "comment_field (PDict c) k = dict_get c k PNone"
| "comment_field _ k = PNone"

definition tracked_comment :: "pyval \<Rightarrow> pyval" where
  "tracked_comment c =
     PDict [(''author'', comment_field c ''author''), (''body'', comment_field c ''body''),
            (''created_at'', comment_field c ''created_at'')]"

section \<open>The classification of the specification\<close>

text \<open>
  The state machine of the specification, for one issue: no metadata entry for its
  identifier is New; an entry whose stored fingerprint is the current fingerprint is
  Unchanged; any other entry is Updated.
\<close>

datatype bucket = New | Updated | Unchanged

fun stored_fingerprint :: "pyval \<Rightarrow> pyval" where
  "stored_fingerprint (PDict entry) = dict_get entry ''hash'' PNone"
| "stored_fingerprint _ = PNone"

definition spec_bucket :: "pylib \<Rightarrow> dict \<Rightarrow> dict \<Rightarrow> bucket" where
  "spec_bucket lib stored_issues issue =
     (case map_of stored_issues (py_str lib (dict_get issue ''number'' PNone)) of
        None \<Rightarrow> New
      | Some entry \<Rightarrow>
          if map_sum id PStr (calculate_hash lib issue) = Inr (stored_fingerprint entry)
          then Unchanged else Updated)"

text \<open>
  The inputs of a classification pass: issue records that can be hashed and have an
  integer as number, and stored issues whose entries are dictionaries.
\<close>

fun is_PInt :: "pyval \<Rightarrow> bool" where
  "is_PInt (PInt n) = True"
| "is_PInt _ = False"

fun int_of :: "pyval \<Rightarrow> int" where
  "int_of (PInt n) = n"
| "int_of _ = 0"

fun is_PDict :: "pyval \<Rightarrow> bool" where
  "is_PDict (PDict d) = True"
| "is_PDict _ = False"

definition issue_record :: "dict \<Rightarrow> bool" where
  "issue_record i = (hashable i \<and> is_PInt (dict_get i ''number'' PNone))"

definition entries :: "dict \<Rightarrow> bool" where
  "entries stored_issues = list_all (\<lambda>kv. is_PDict (snd kv)) stored_issues"

text \<open>
  The issue records of the data model: an integer number; strings as title, body, state
  and modification time; lists of strings as labels and assignees; and comments whose
  author, body and creation time are strings. The tracked content of a record is read with
  the three functions below.
\<close>

fun list_items :: "pyval \<Rightarrow> pyval list" where
  "list_items (PList xs) = xs"
| "list_items _ = []"

definition labels_of :: "dict \<Rightarrow> string list" where
  "labels_of i = map str_of (list_items (dict_get i ''labels'' PNone))"

definition assignees_of :: "dict \<Rightarrow> string list" where
  "assignees_of i = map str_of (list_items (dict_get i ''assignees'' PNone))"

definition comments_of :: "dict \<Rightarrow> pyval list" where
  "comments_of i = map tracked_comment (list_items (dict_get i ''comments'' PNone))"

fun typed_comment :: "pyval \<Rightarrow> bool" where
  "typed_comment (PDict c) =
     (is_PStr (dict_get c ''author'' PNone) \<and> is_PStr (dict_get c ''body'' PNone) \<and>
      is_PStr (dict_get c ''created_at'' PNone))"
| "typed_comment _ = False"

fun typed_comments :: "pyval \<Rightarrow> bool" where
  "typed_comments (PList cs) = list_all typed_comment cs"
| "typed_comments _ = False"

definition typed_issue :: "dict \<Rightarrow> bool" where
  "typed_issue i =
     (is_PInt (dict_get i ''number'' PNone) \<and> is_PStr (dict_get i ''title'' PNone) \<and>
      is_PStr (dict_get i ''body'' PNone) \<and> is_PStr (dict_get i ''state'' PNone) \<and>
      is_PStr (dict_get i ''updated_at'' PNone) \<and> str_list (dict_get i ''labels'' PNone) \<and>
      str_list (dict_get i ''assignees'' PNone) \<and> typed_comments (dict_get i ''comments'' PNone))"

section \<open>Example values\<close>

text \<open>
  A library whose digest is the text itself, for evaluating the definitions on concrete
  records.
\<close>

definition example_lib :: pylib where
  "example_lib = \<lparr>sha256 = (\<lambda>s. s), yaml_dump = (\<lambda>v. ''yaml''),
                  sorted_other = (\<lambda>xs. Inl TypeError), py_repr = (\<lambda>v. ''repr''),
                  parse_int = (\<lambda>s. None)\<rparr>"

text \<open>A record whose body is None, and the same record without the body.\<close>

definition issue_none_body :: dict where
  "issue_none_body =
     [(''number'', PInt 1), (''title'', PStr ''Bug''), (''body'', PNone), (''state'', PStr ''open''),
      (''labels'', PList [PStr ''b'', PStr ''a'']), (''assignees'', PList []),
      (''updated_at'', PStr ''t''),
      (''comments'', PList [PDict [(''author'', PStr ''x''), (''body'', PStr ''hi''),
                                   (''created_at'', PStr ''t0'')]])]"

definition issue_no_body :: dict where
  "issue_no_body =
     [(''number'', PInt 1), (''title'', PStr ''Bug''), (''state'', PStr ''open''),
      (''labels'', PList []), (''assignees'', PList []), (''updated_at'', PStr ''t''),
      (''comments'', PList [])]"

text \<open>
  Issue 1 after it was closed, and stored issues that hold its entry from a time when it
  was open.
\<close>

definition issue_closed :: dict where
  "issue_closed =
     [(''number'', PInt 1), (''title'', PStr ''Bug''), (''body'', PStr []), (''state'', PStr ''closed''),
      (''labels'', PList []), (''author'', PStr ''me''), (''assignees'', PList []),
      (''created_at'', PStr ''t0''), (''updated_at'', PStr ''t2''), (''closed_at'', PStr ''t2''),
      (''url'', PStr ''u''), (''comments'', PList []), (''milestone'', PNone)]"

definition entry_open :: dict where
  "entry_open = [(''hash'', PStr ''h''), (''updated_at'', PStr ''t1''), (''state'', PStr ''open'')]"

definition stored_open :: dict where
  "stored_open = [(''1'', PDict entry_open)]"

definition no_changes :: changes where
  "no_changes = \<lparr>new = [], updated = [], unchanged = []\<rparr>"

text \<open>
  A fresh store: only the base directory exists. The states after issue 1 was saved to
  the repository \<^verbatim>\<open>acme/widgets\<close> once and twice.
\<close>

definition start_fs :: filesys where
  "start_fs = \<lparr>dirs = [[''issues'']], files = []\<rparr>"

definition saved_once :: filesys where
  "saved_once = fst (save_issue example_lib [''issues''] start_fs ''acme/widgets'' issue_closed)"


text \<open>
  A store of \<^verbatim>\<open>acme/widgets\<close> whose metadata document is in the old flat format, with
  the entry of issue 123, and the state after the metadata of issue 1 was updated in it.
\<close>

definition entry123 :: pyval where
  "entry123 = PDict [(''hash'', PStr ''h''), (''updated_at'', PStr ''t1''), (''state'', PStr ''open'')]"

definition legacy_doc :: dict where
  "legacy_doc = [(''123'', entry123)]"

definition legacy_fs :: filesys where
  "legacy_fs = \<lparr>dirs = [[''issues''], [''issues'', ''acme-widgets'']],
                files = [([''issues'', ''acme-widgets'', ''.metadata.json''],
                          JsonDoc (PDict legacy_doc))]\<rparr>"

definition legacy_updated :: filesys where
  "legacy_updated =
     fst (update_metadata example_lib [''issues''] legacy_fs ''acme/widgets'' issue_closed)"



text \<open>
  A sync pass over the store in which issue 1 was saved: issue 1 as it was saved, issue 1
  reopened, and an issue 2 that the store does not know.
\<close>

definition issue_reopened :: dict where
  "issue_reopened = setitem issue_closed ''state'' (PStr ''open'')"

definition issue_two :: dict where
  "issue_two = setitem issue_closed ''number'' (PInt 2)"

definition saved_stored :: dict where
  "saved_stored =
     [(''1'', PDict [(''hash'', PStr ''{\"assignees\": [], \"body\": \"\", \"comments\": [], \"labels\": [], \"number\": 1, \"state\": \"closed\", \"title\": \"Bug\", \"updated_at\": \"t2\"}''),
                     (''updated_at'', PStr ''t2''), (''state'', PStr ''closed'')])]"

(*DEFS-END*)

section \<open>Basic facts\<close>

lemma bnd_Inr [simp]: "bnd (Inr v) f = f v"
  by (simp add: bnd_def)

lemma bnd_Inl [simp]: "bnd (Inl e) f = Inl e"
  by (simp add: bnd_def)

lemma bnd_eq_Inr: "bnd m f = Inr y \<longleftrightarrow> (\<exists>v. m = Inr v \<and> f v = Inr y)"
  by (cases m) simp_all

lemma getitem_Some: "map_of d k = Some v \<Longrightarrow> getitem d k = Inr v"
  by (simp add: getitem_def)

lemma getitem_None: "map_of d k = None \<Longrightarrow> getitem d k = Inl (KeyError k)"
  by (simp add: getitem_def)

lemma getitem_eq_Inr: "getitem d k = Inr v \<longleftrightarrow> map_of d k = Some v"
  by (simp add: getitem_def split: option.splits)

lemma dict_get_Some: "map_of d k = Some v \<Longrightarrow> dict_get d k dflt = v"
  by (simp add: dict_get_def)

section \<open>The hasher on complete and on incomplete records\<close>

lemma py_sorted_str_list:
  "list_all is_PStr xs \<Longrightarrow> py_sorted lib (PList xs) = Inr (map PStr (sort (map str_of xs)))"
  by (simp add: py_sorted_def)

lemma hash_comment_keys: "comment_keys c \<Longrightarrow> hash_comment c = Inr (tracked_comment c)"
  by (cases c) (auto simp: hash_comment_def getitem_def tracked_comment_def dict_get_def)

lemma mapM_hash_comment: "list_all comment_keys cs \<Longrightarrow> mapM hash_comment cs = Inr (map tracked_comment cs)"
  by (induction cs) (simp_all add: hash_comment_keys)

lemma hash_data_hashable:
  assumes "hashable d"
  shows "\<exists>ls as cs.
     map_of d ''labels'' = Some (PList ls) \<and> map_of d ''assignees'' = Some (PList as) \<and>
     map_of d ''comments'' = Some (PList cs) \<and>
     hash_data lib d = Inr (PDict
       [(''number'', dict_get d ''number'' PNone), (''title'', dict_get d ''title'' PNone),
        (''body'', dict_get d ''body'' PNone), (''state'', dict_get d ''state'' PNone),
        (''labels'', PList (map PStr (sort (map str_of ls)))),
        (''assignees'', PList (map PStr (sort (map str_of as)))),
        (''updated_at'', dict_get d ''updated_at'' PNone),
        (''comments'', PList (map tracked_comment cs))])"
proof -
  from assms obtain n t b s u l a c where
    vals: "map_of d ''number'' = Some n" "map_of d ''title'' = Some t"
      "map_of d ''body'' = Some b" "map_of d ''state'' = Some s"
      "map_of d ''updated_at'' = Some u" "map_of d ''labels'' = Some l"
      "map_of d ''assignees'' = Some a" "map_of d ''comments'' = Some c"
    and typs: "str_list l" "str_list a" "comment_list c"
    by (auto simp: hashable_def split: option.splits)
  from typs(1) obtain ls where l: "l = PList ls" "list_all is_PStr ls" by (cases l) simp_all
  from typs(2) obtain as where a: "a = PList as" "list_all is_PStr as" by (cases a) simp_all
  from typs(3) obtain cs where c: "c = PList cs" "list_all comment_keys cs" by (cases c) simp_all
  have "hash_data lib d = Inr (PDict
       [(''number'', n), (''title'', t), (''body'', b), (''state'', s),
        (''labels'', PList (map PStr (sort (map str_of ls)))),
        (''assignees'', PList (map PStr (sort (map str_of as)))),
        (''updated_at'', u), (''comments'', PList (map tracked_comment cs))])"
    by (simp add: hash_data_def getitem_Some vals l a c py_sorted_str_list mapM_hash_comment)
  then show ?thesis
    using vals l a c by (simp add: dict_get_Some)
qed

lemma hash_data_missing:
  assumes "k \<in> set tracked_keys" and "map_of d k = None"
  shows "\<exists>e. hash_data lib d = Inl e"
proof (cases "hash_data lib d")
  case (Inl e)
  then show ?thesis by blast
next
  case (Inr h)
  then have "map_of d ''number'' \<noteq> None \<and> map_of d ''title'' \<noteq> None \<and> map_of d ''body'' \<noteq> None \<and>
      map_of d ''state'' \<noteq> None \<and> map_of d ''labels'' \<noteq> None \<and> map_of d ''assignees'' \<noteq> None \<and>
      map_of d ''updated_at'' \<noteq> None \<and> map_of d ''comments'' \<noteq> None"
    by (auto simp: hash_data_def bnd_eq_Inr getitem_eq_Inr)
  with assms show ?thesis by (auto simp: tracked_keys_def)
qed

text \<open>
  C8, amended: on every record that has the eight keys the hasher reads, with lists of
  strings as labels and assignees and with comments that have their three keys,
  \<^verbatim>\<open>_calculate_hash\<close> raises nothing and returns the digest of the JSON text of the
  eight fields as they are: the labels and the assignees sorted, every comment reduced to
  its author, body and creation time, and every other value unchanged. When one of the
  eight keys is absent it returns no digest: it raises.
\<close>

theorem calculate_hash_total:
  "(hashable d \<longrightarrow> (\<exists>ls as cs.
      map_of d ''labels'' = Some (PList ls) \<and> map_of d ''assignees'' = Some (PList as) \<and>
      map_of d ''comments'' = Some (PList cs) \<and>
      calculate_hash lib d = Inr (sha256 lib (json_dumps (PDict
        [(''number'', dict_get d ''number'' PNone), (''title'', dict_get d ''title'' PNone),
         (''body'', dict_get d ''body'' PNone), (''state'', dict_get d ''state'' PNone),
         (''labels'', PList (map PStr (sort (map str_of ls)))),
         (''assignees'', PList (map PStr (sort (map str_of as)))),
         (''updated_at'', dict_get d ''updated_at'' PNone),
         (''comments'', PList (map tracked_comment cs))]))))) \<and>
   (\<forall>k \<in> set tracked_keys. map_of d k = None \<longrightarrow> (\<exists>e. calculate_hash lib d = Inl e))"
proof (intro conjI impI ballI)
  assume "hashable d"
  from hash_data_hashable [OF this, of lib] show "\<exists>ls as cs.
      map_of d ''labels'' = Some (PList ls) \<and> map_of d ''assignees'' = Some (PList as) \<and>
      map_of d ''comments'' = Some (PList cs) \<and>
      calculate_hash lib d = Inr (sha256 lib (json_dumps (PDict
        [(''number'', dict_get d ''number'' PNone), (''title'', dict_get d ''title'' PNone),
         (''body'', dict_get d ''body'' PNone), (''state'', dict_get d ''state'' PNone),
         (''labels'', PList (map PStr (sort (map str_of ls)))),
         (''assignees'', PList (map PStr (sort (map str_of as)))),
         (''updated_at'', dict_get d ''updated_at'' PNone),
         (''comments'', PList (map tracked_comment cs))])))"
    by (auto simp: calculate_hash_def json_str_def)
next
  fix k assume "k \<in> set tracked_keys" "map_of d k = None"
  from hash_data_missing [OF this, of lib] show "\<exists>e. calculate_hash lib d = Inl e"
    by (auto simp: calculate_hash_def json_str_def)
qed

text \<open>
  C8, as stated, fails: a record without the key \<^verbatim>\<open>body\<close> makes
  \<^verbatim>\<open>_calculate_hash\<close> raise KeyError; nothing is substituted for the absent field.
\<close>

theorem calculate_hash_missing_body:
  "calculate_hash example_lib issue_no_body = Inl (KeyError ''body'')"
  by (simp add: calculate_hash_def json_str_def hash_data_def getitem_def issue_no_body_def)

lemma calculate_hash_none_body:
  "calculate_hash example_lib issue_none_body =
     Inr ''{\"assignees\": [], \"body\": null, \"comments\": [{\"author\": \"x\", \"body\": \"hi\", \"created_at\": \"t0\"}], \"labels\": [\"a\", \"b\"], \"number\": 1, \"state\": \"open\", \"title\": \"Bug\", \"updated_at\": \"t\"}''"
  by code_simp

theorem calculate_hash_total_witness:
  "hashable issue_none_body \<and>
   calculate_hash example_lib issue_none_body =
     Inr ''{\"assignees\": [], \"body\": null, \"comments\": [{\"author\": \"x\", \"body\": \"hi\", \"created_at\": \"t0\"}], \"labels\": [\"a\", \"b\"], \"number\": 1, \"state\": \"open\", \"title\": \"Bug\", \"updated_at\": \"t\"}'' \<and>
   ''body'' \<in> set tracked_keys \<and> map_of issue_no_body ''body'' = None \<and>
   (\<exists>e. calculate_hash example_lib issue_no_body = Inl e)"
proof -
  have a: "hashable issue_none_body"
    by (simp add: hashable_def issue_none_body_def)
  have b: "''body'' \<in> set tracked_keys" "map_of issue_no_body ''body'' = None"
    by (simp_all add: tracked_keys_def issue_no_body_def)
  from calculate_hash_total [of issue_no_body example_lib] b
  have c: "\<exists>e. calculate_hash example_lib issue_no_body = Inl e" by blast
  from calculate_hash_total [of issue_none_body example_lib] a
  have "\<exists>h. calculate_hash example_lib issue_none_body = Inr h" by blast
  with a b c calculate_hash_none_body show ?thesis by simp
qed

section \<open>Change descriptors\<close>

lemma py_eq_PStr_right [simp]: "py_eq a (PStr s) = (a = PStr s)"
  by (cases a) auto

lemma py_eq_PStr_left [simp]: "py_eq (PStr s) b = (b = PStr s)"
  by (cases b) auto

text \<open>
  C7: an issue whose number has a stored entry with another fingerprint is appended to
  \<open>updated\<close> together with the list that \<^verbatim>\<open>_detect_issue_changes\<close> returns for it.
  For a current state and modification time that are strings, this list is never empty;
  it holds the text \<^verbatim>\<open>State changed from '<old>' to '<new>'\<close> exactly when the stored
  state differs from the current one (\<^verbatim>\<open><old>\<close> is the stored state, or
  \<^verbatim>\<open>unknown\<close> when the entry has none), the text \<^verbatim>\<open>Updated at <timestamp>\<close> exactly
  when the stored modification time differs from the current one, each test on its own,
  and the text \<^verbatim>\<open>Content modified\<close> exactly when neither differs.
\<close>

theorem classify_issue_updated:
  assumes "map_of issue ''number'' = Some number"
    and "calculate_hash lib issue = Inr h"
    and "map_of stored_issues (py_str lib number) = Some (PDict entry)"
    and "dict_get entry ''hash'' PNone \<noteq> PStr h"
    and "map_of issue ''state'' = Some (PStr s)"
    and "map_of issue ''updated_at'' = Some (PStr u)"
  shows "\<exists>ds. detect_issue_changes lib issue entry = Inr ds \<and>
     classify_issue lib stored_issues ch issue = Inr (ch\<lparr>updated := updated ch @ [(issue, ds)]\<rparr>) \<and>
     ds \<noteq> [] \<and>
     (''State changed from '' @ [CHR 0x27] @
        py_str lib (dict_get entry ''state'' (PStr ''unknown'')) @ [CHR 0x27] @
        '' to '' @ [CHR 0x27] @ s @ [CHR 0x27] \<in> set ds
      \<longleftrightarrow> dict_get entry ''state'' PNone \<noteq> PStr s) \<and>
     (''Updated at '' @ u \<in> set ds \<longleftrightarrow> dict_get entry ''updated_at'' PNone \<noteq> PStr u) \<and>
     (''Content modified'' \<in> set ds \<longleftrightarrow>
        dict_get entry ''state'' PNone = PStr s \<and> dict_get entry ''updated_at'' PNone = PStr u)"
  using assms
  by (simp add: classify_issue_def detect_issue_changes_def getitem_Some)

lemma calculate_hash_issue_closed:
  "calculate_hash example_lib issue_closed =
     Inr ''{\"assignees\": [], \"body\": \"\", \"comments\": [], \"labels\": [], \"number\": 1, \"state\": \"closed\", \"title\": \"Bug\", \"updated_at\": \"t2\"}''"
  by code_simp

theorem classify_issue_updated_witness:
  "map_of issue_closed ''number'' = Some (PInt 1) \<and>
   (\<exists>h. calculate_hash example_lib issue_closed = Inr h \<and> dict_get entry_open ''hash'' PNone \<noteq> PStr h) \<and>
   map_of stored_open (py_str example_lib (PInt 1)) = Some (PDict entry_open) \<and>
   map_of issue_closed ''state'' = Some (PStr ''closed'') \<and>
   map_of issue_closed ''updated_at'' = Some (PStr ''t2'') \<and>
   (\<exists>ds. classify_issue example_lib stored_open no_changes issue_closed
            = Inr (no_changes\<lparr>updated := updated no_changes @ [(issue_closed, ds)]\<rparr>) \<and>
         ''State changed from '' @ [CHR 0x27] @ ''open'' @ [CHR 0x27] @ '' to '' @
           [CHR 0x27] @ ''closed'' @ [CHR 0x27] \<in> set ds \<and>
         ''Updated at t2'' \<in> set ds \<and> ''Content modified'' \<notin> set ds)"
proof -
  let ?h = "''{\"assignees\": [], \"body\": \"\", \"comments\": [], \"labels\": [], \"number\": 1, \"state\": \"closed\", \"title\": \"Bug\", \"updated_at\": \"t2\"}''"
  have a: "map_of issue_closed ''number'' = Some (PInt 1)"
    by (simp add: issue_closed_def)
  have b: "calculate_hash example_lib issue_closed = Inr ?h"
    by (rule calculate_hash_issue_closed)
  have c: "map_of stored_open (py_str example_lib (PInt 1)) = Some (PDict entry_open)"
    by code_simp
  have d: "dict_get entry_open ''hash'' PNone \<noteq> PStr ?h"
    by (simp add: entry_open_def dict_get_def)
  have e: "map_of issue_closed ''state'' = Some (PStr ''closed'')"
    by (simp add: issue_closed_def)
  have f: "map_of issue_closed ''updated_at'' = Some (PStr ''t2'')"
    by (simp add: issue_closed_def)
  have g: "dict_get entry_open ''state'' PNone = PStr ''open''"
    "dict_get entry_open ''state'' (PStr ''unknown'') = PStr ''open''"
    "dict_get entry_open ''updated_at'' PNone = PStr ''t1''"
    by (simp_all add: entry_open_def dict_get_def)
  from classify_issue_updated [OF a b c d e f, of no_changes] obtain ds where
    ds: "classify_issue example_lib stored_open no_changes issue_closed
           = Inr (no_changes\<lparr>updated := updated no_changes @ [(issue_closed, ds)]\<rparr>)"
      "''State changed from '' @ [CHR 0x27] @ ''open'' @ [CHR 0x27] @ '' to '' @
           [CHR 0x27] @ ''closed'' @ [CHR 0x27] \<in> set ds"
      "''Updated at t2'' \<in> set ds" "''Content modified'' \<notin> set ds"
    by (auto simp: g)
  with a b c d e f show ?thesis by blast
qed

section \<open>Paths and directories\<close>

lemma sbnd_Inr [simp]: "sbnd (fs, Inr v) f = f fs v"
  by (simp add: sbnd_def)

lemma sbnd_Inl [simp]: "sbnd (fs, Inl e) f = (fs, Inl e)"
  by (simp add: sbnd_def)

lemma split_on_no_sep: "sep \<notin> set s \<Longrightarrow> split_on sep s = [s]"
  by (induction s) auto

lemma path_join_simple:
  "CHR ''/'' \<notin> set n \<Longrightarrow> n \<noteq> [] \<Longrightarrow> n \<noteq> ''.'' \<Longrightarrow> path_join p n = p @ [n]"
  by (simp add: path_join_def split_on_no_sep)

lemma metadata_file_eq [simp]: "metadata_file d = d @ [''.metadata.json'']"
  by (simp add: metadata_file_def path_join_def)

lemma repo_dir_name_no_slash: "CHR ''/'' \<notin> set (repo_dir_name r)"
  by (auto simp: repo_dir_name_def)

lemma repo_path_cases:
  "repo_path base r = (if repo_dir_name r = [] \<or> repo_dir_name r = ''.'' then base
                       else base @ [repo_dir_name r])"
  by (simp add: repo_path_def path_join_def split_on_no_sep [OF repo_dir_name_no_slash])

lemma is_dir_iff: "is_dir fs p \<longleftrightarrow> (\<forall>k \<le> length p. dir_exists fs (take k p))"
  by (auto simp: is_dir_def list_all_iff less_Suc_eq_le)

lemma walk_None_iff:
  "walk fs pre (p @ [x]) = None \<longleftrightarrow> (\<forall>k. 0 < k \<and> k \<le> length p \<longrightarrow> dir_exists fs (pre @ take k p))"
proof (induction p arbitrary: pre)
  case Nil
  show ?case by simp
next
  case (Cons a p)
  have "walk fs pre ((a # p) @ [x]) =
        (if dir_exists fs (pre @ [a]) then walk fs (pre @ [a]) (p @ [x])
         else if file_exists fs (pre @ [a]) then Some NotADirectoryError else Some FileNotFoundError)"
    by (cases p) simp_all
  moreover have "(\<forall>k. 0 < k \<and> k \<le> length (a # p) \<longrightarrow> dir_exists fs (pre @ take k (a # p))) \<longleftrightarrow>
        dir_exists fs (pre @ [a]) \<and> (\<forall>k. 0 < k \<and> k \<le> length p \<longrightarrow> dir_exists fs ((pre @ [a]) @ take k p))"
  proof (intro iffI conjI allI impI)
    assume h: "\<forall>k. 0 < k \<and> k \<le> length (a # p) \<longrightarrow> dir_exists fs (pre @ take k (a # p))"
    from h [rule_format, of 1] show "dir_exists fs (pre @ [a])" by simp
    fix k assume "0 < k \<and> k \<le> length p"
    with h [rule_format, of "Suc k"] show "dir_exists fs ((pre @ [a]) @ take k p)" by simp
  next
    fix k assume h: "dir_exists fs (pre @ [a]) \<and> (\<forall>k. 0 < k \<and> k \<le> length p \<longrightarrow> dir_exists fs ((pre @ [a]) @ take k p))"
      and k: "0 < k \<and> k \<le> length (a # p)"
    show "dir_exists fs (pre @ take k (a # p))"
    proof (cases k)
      case 0 with k show ?thesis by simp
    next
      case (Suc j)
      show ?thesis
      proof (cases j)
        case 0 with Suc h show ?thesis by simp
      next
        case (Suc i)
        with \<open>k = Suc j\<close> k h show ?thesis by simp
      qed
    qed
  qed
  ultimately show ?case using Cons.IH [of "pre @ [a]"] by simp
qed

lemma parent_error_child: "parent_error fs (p @ [x]) = None \<longleftrightarrow> is_dir fs p"
proof -
  have "is_dir fs p \<longleftrightarrow> (\<forall>k. 0 < k \<and> k \<le> length p \<longrightarrow> dir_exists fs (take k p))"
    unfolding is_dir_iff by (auto simp: dir_exists_def)
  then show ?thesis by (simp add: parent_error_def walk_None_iff)
qed

lemma is_dir_butlast: "is_dir fs p \<Longrightarrow> is_dir fs (butlast p)"
  unfolding is_dir_iff
  by (metis butlast_conv_take diff_le_self le_trans length_butlast min.absorb1 take_take)

lemma is_dir_parent_error: "is_dir fs p \<Longrightarrow> parent_error fs p = None"
proof (cases p rule: rev_cases)
  case Nil
  then show ?thesis by (simp add: parent_error_def)
next
  case (snoc q x)
  assume "is_dir fs p"
  then have "is_dir fs (butlast p)" by (rule is_dir_butlast)
  with snoc show ?thesis by (simp add: parent_error_child)
qed

lemma is_dir_exists: "is_dir fs p \<Longrightarrow> dir_exists fs p"
  unfolding is_dir_iff by (metis order_refl take_all)

lemma is_dir_snoc: "is_dir fs (p @ [x]) \<longleftrightarrow> is_dir fs p \<and> dir_exists fs (p @ [x])"
  unfolding is_dir_iff
  apply (auto simp: take_Suc_conv_app_nth)
   apply (metis le_SucI take_all take_append order_refl append_Nil2 diff_is_0_eq' take_0 le_Suc_eq)
  by (metis le_Suc_eq length_append_singleton take_all take_append order_refl diff_is_0_eq' take_0 append_Nil2)

lemma absent_not_exists:
  assumes "absent fs p"
  shows "\<not> dir_exists fs p" and "\<not> file_exists fs p"
proof -
  from assms have ne: "p \<noteq> []" and all: "\<forall>q \<in> set (dirs fs) \<union> fst ` set (files fs). take (length p) q \<noteq> p"
    by (auto simp: absent_def list_all_iff)
  have tk: "take (length p) p = p" by simp
  from all tk have "p \<notin> set (dirs fs)" by blast
  with ne show "\<not> dir_exists fs p" by (simp add: dir_exists_def)
  from all tk have "p \<notin> fst ` set (files fs)" by blast
  then show "\<not> file_exists fs p" by (simp add: file_exists_def map_of_eq_None_iff)
qed

lemma absent_below:
  assumes "absent fs p"
  shows "\<not> dir_exists fs (p @ q)" and "\<not> file_exists fs (p @ q)"
proof -
  from assms have ne: "p \<noteq> []" and all: "\<forall>r \<in> set (dirs fs) \<union> fst ` set (files fs). take (length p) r \<noteq> p"
    by (auto simp: absent_def list_all_iff)
  have tk: "take (length p) (p @ q) = p" by simp
  from all tk have "p @ q \<notin> set (dirs fs)" by blast
  with ne show "\<not> dir_exists fs (p @ q)" by (simp add: dir_exists_def)
  from all tk have "p @ q \<notin> fst ` set (files fs)" by blast
  then show "\<not> file_exists fs (p @ q)" by (simp add: file_exists_def map_of_eq_None_iff)
qed

lemma absent_no_children:
  assumes "absent fs p"
  shows "children (fs\<lparr>dirs := dirs fs @ [p]\<rparr>) p = []"
proof -
  from assms have ne: "p \<noteq> []" and all: "\<forall>r \<in> set (dirs fs) \<union> fst ` set (files fs). take (length p) r \<noteq> p"
    by (auto simp: absent_def list_all_iff)
  have "\<And>r. r \<noteq> [] \<Longrightarrow> butlast r = p \<Longrightarrow> take (length p) r = p"
    by (metis butlast_conv_take length_butlast)
  with all have "\<forall>r \<in> set (dirs fs) \<union> fst ` set (files fs). \<not> (r \<noteq> [] \<and> butlast r = p)"
    by blast
  moreover from ne have "butlast p \<noteq> p"
    by (metis length_butlast diff_less length_greater_0_conv less_numeral_extra(1) nat_neq_iff)
  ultimately have "filter (\<lambda>r. r \<noteq> [] \<and> butlast r = p) ((dirs fs @ [p]) @ map fst (files fs)) = []"
    by (auto simp: filter_empty_conv)
  then show ?thesis by (simp add: children_def)
qed

lemma is_dir_mono:
  "is_dir fs p \<Longrightarrow> set (dirs fs) \<subseteq> set (dirs fs') \<Longrightarrow> is_dir fs' p"
  unfolding is_dir_iff dir_exists_def by blast

lemma mkdir_absent:
  assumes "is_dir fs (butlast p)" and "absent fs p"
  shows "mkdir_exist_ok fs p = (fs\<lparr>dirs := dirs fs @ [p]\<rparr>, Inr ())"
proof -
  from assms(2) have "p \<noteq> []" by (simp add: absent_def)
  then have "p = butlast p @ [last p]" by simp
  with assms(1) have "parent_error fs p = None"
    by (metis parent_error_child)
  with absent_not_exists [OF assms(2)] show ?thesis
    by (simp add: mkdir_exist_ok_def)
qed

lemma mkdir_existing: "is_dir fs p \<Longrightarrow> mkdir_exist_ok fs p = (fs, Inr ())"
  by (simp add: mkdir_exist_ok_def is_dir_parent_error is_dir_exists)

lemma get_repo_dir_existing:
  "is_dir fs (repo_path base r) \<Longrightarrow> get_repo_dir base fs r = (fs, Inr (repo_path base r))"
  by (simp add: get_repo_dir_def mkdir_existing Let_def)

lemma repo_path_absent:
  assumes "is_dir fs base" and "absent fs (repo_path base r)"
  shows "repo_path base r = base @ [repo_dir_name r]"
proof -
  from assms(1) have "dir_exists fs base" by (rule is_dir_exists)
  with absent_not_exists(1) [OF assms(2)] have "repo_path base r \<noteq> base" by auto
  then show ?thesis by (simp add: repo_path_cases split: if_splits)
qed

lemma get_repo_dir_absent:
  assumes "is_dir fs base" and "absent fs (repo_path base r)"
  shows "get_repo_dir base fs r = (fs\<lparr>dirs := dirs fs @ [repo_path base r]\<rparr>, Inr (repo_path base r))"
proof -
  have "butlast (repo_path base r) = base"
    using repo_path_absent [OF assms] by simp
  with assms show ?thesis by (simp add: get_repo_dir_def mkdir_absent Let_def)
qed

lemma is_dir_created:
  assumes "is_dir fs base" and "absent fs (repo_path base r)"
  shows "is_dir (fs\<lparr>dirs := dirs fs @ [repo_path base r]\<rparr>) (repo_path base r)"
proof -
  have "is_dir (fs\<lparr>dirs := dirs fs @ [repo_path base r]\<rparr>) base"
    using assms(1) by (rule is_dir_mono) auto
  then show ?thesis
    using repo_path_absent [OF assms] by (simp add: is_dir_snoc dir_exists_def)
qed

lemma not_exists_created:
  assumes "absent fs p" and "q \<noteq> []"
  shows "\<not> path_exists (fs\<lparr>dirs := dirs fs @ [p]\<rparr>) (p @ q)"
  using absent_below [OF assms(1), of q] assms(2)
  by (simp add: path_exists_def dir_exists_def file_exists_def)

lemma split_on_head:
  "c \<noteq> sep \<Longrightarrow> \<exists>w ws. split_on sep (c # cs) = (c # w) # ws"
  by (cases "split_on sep cs") auto

lemma issue_file_below: "\<exists>q. q \<noteq> [] \<and> issue_file d n = d @ q"
proof -
  obtain w ws where "split_on (CHR ''/'') (''issue-'' @ n @ ''.md'') = (CHR ''i'' # w) # ws"
    using split_on_head [of "CHR ''i''" "CHR ''/''" "''ssue-'' @ n @ ''.md''"] by auto
  then show ?thesis by (simp add: issue_file_def path_join_def)
qed

lemma dirs_write_file [simp]: "dirs (fst (write_file fs p c)) = dirs fs"
  by (simp add: write_file_def split: option.splits)

lemma dirs_update_metadata:
  "is_dir fs (repo_path base r) \<Longrightarrow> dirs (fst (update_metadata lib base fs r i)) = dirs fs"
  by (simp add: update_metadata_def get_repo_dir_existing split: sum.splits)

lemma is_dir_write_file: "is_dir fs d \<Longrightarrow> is_dir (fst (write_file fs p c)) d"
  by (erule is_dir_mono) simp

lemma dirs_save_issue:
  assumes "is_dir fs' (repo_path base r)"
  shows "get_repo_dir base fs r = (fs', Inr (repo_path base r)) \<Longrightarrow>
         dirs (fst (save_issue lib base fs r i)) = dirs fs'"
proof -
  assume g: "get_repo_dir base fs r = (fs', Inr (repo_path base r))"
  have w: "\<And>p c. dirs (fst (sbnd (write_file fs' p c) (\<lambda>fs u.
              sbnd (update_metadata lib base fs r i) (\<lambda>fs u. (fs, Inr p))))) = dirs fs'"
  proof -
    fix p c
    obtain fs1 res where wf: "write_file fs' p c = (fs1, res)" by (cases "write_file fs' p c")
    then have d1: "dirs fs1 = dirs fs'" by (metis dirs_write_file fst_conv)
    have i1: "is_dir fs1 (repo_path base r)"
      using is_dir_write_file [OF assms, of p c] wf by simp
    obtain fs2 res2 where um: "update_metadata lib base fs1 r i = (fs2, res2)"
      by (cases "update_metadata lib base fs1 r i")
    then have "dirs fs2 = dirs fs1" using dirs_update_metadata [OF i1, of lib i] by simp
    with d1 wf um show "dirs (fst (sbnd (write_file fs' p c) (\<lambda>fs u.
              sbnd (update_metadata lib base fs r i) (\<lambda>fs u. (fs, Inr p))))) = dirs fs'"
      by (cases res; cases res2) simp_all
  qed
  show ?thesis
    using g w by (simp add: save_issue_def split: sum.splits)
qed

text \<open>
  C10: when the base directory resolves to a directory and nothing exists at or below the
  directory of the repository, every operation that goes through \<^verbatim>\<open>get_repo_dir\<close>
  creates that directory: \<^verbatim>\<open>load_metadata\<close>, \<^verbatim>\<open>load_filters\<close>,
  \<^verbatim>\<open>issue_exists\<close> and \<^verbatim>\<open>get_all_issue_numbers\<close> return their empty answer
  together with a state that has the new, empty directory, and \<^verbatim>\<open>save_filters\<close> and
  \<^verbatim>\<open>save_issue\<close> leave it behind as well, whatever else they do. The constructor
  creates an absent base directory in the same way.
\<close>

theorem repo_dir_created:
  assumes "is_dir fs base" and "absent fs (repo_path base r)"
  shows "(is_dir fs (butlast base') \<and> absent fs base' \<longrightarrow>
            init_storage base' fs = (fs\<lparr>dirs := dirs fs @ [base']\<rparr>, Inr ())) \<and>
         get_repo_dir base fs r =
           (fs\<lparr>dirs := dirs fs @ [repo_path base r]\<rparr>, Inr (repo_path base r)) \<and>
         load_metadata base fs r = (fs\<lparr>dirs := dirs fs @ [repo_path base r]\<rparr>, Inr empty_metadata) \<and>
         load_filters base fs r = (fs\<lparr>dirs := dirs fs @ [repo_path base r]\<rparr>, Inr (PDict [])) \<and>
         issue_exists base fs r n = (fs\<lparr>dirs := dirs fs @ [repo_path base r]\<rparr>, Inr False) \<and>
         get_all_issue_numbers lib base fs r = (fs\<lparr>dirs := dirs fs @ [repo_path base r]\<rparr>, Inr []) \<and>
         dirs (fst (save_filters base fs r filters)) = dirs fs @ [repo_path base r] \<and>
         dirs (fst (save_issue lib base fs r issue)) = dirs fs @ [repo_path base r] \<and>
         repo_path base r \<notin> set (dirs fs) \<and>
         children (fs\<lparr>dirs := dirs fs @ [repo_path base r]\<rparr>) (repo_path base r) = []"
proof -
  let ?rp = "repo_path base r"
  let ?fs = "fs\<lparr>dirs := dirs fs @ [?rp]\<rparr>"
  have g: "get_repo_dir base fs r = (?fs, Inr ?rp)"
    using assms by (rule get_repo_dir_absent)
  have d: "is_dir ?fs ?rp" using assms by (rule is_dir_created)
  have g': "get_repo_dir base ?fs r = (?fs, Inr ?rp)"
    using d by (rule get_repo_dir_existing)
  have m: "\<not> path_exists ?fs (metadata_file ?rp)"
    using not_exists_created [OF assms(2), of "[''.metadata.json'']"] by simp
  have lm: "load_metadata base fs r = (?fs, Inr empty_metadata)"
    using g m by (simp add: load_metadata_def)
  have lm': "load_metadata base ?fs r = (?fs, Inr empty_metadata)"
    using g' m by (simp add: load_metadata_def)
  have lf: "load_filters base fs r = (?fs, Inr (PDict []))"
    using lm by (simp add: load_filters_def empty_metadata_def dict_get_def)
  obtain q where q: "q \<noteq> []" "issue_file ?rp (show_int n) = ?rp @ q"
    using issue_file_below by blast
  have ie: "issue_exists base fs r n = (?fs, Inr False)"
    using g not_exists_created [OF assms(2) q(1)] by (simp add: issue_exists_def q(2))
  have pe: "path_exists ?fs ?rp"
    using d by (simp add: path_exists_def is_dir_parent_error is_dir_exists)
  have ga: "get_all_issue_numbers lib base fs r = (?fs, Inr [])"
    using g pe absent_no_children [OF assms(2)] by (simp add: get_all_issue_numbers_def)
  have sf: "dirs (fst (save_filters base fs r filters)) = dirs fs @ [?rp]"
    using g lm' by (simp add: save_filters_def empty_metadata_def)
  have si: "dirs (fst (save_issue lib base fs r issue)) = dirs fs @ [?rp]"
    using dirs_save_issue [OF d g, of lib issue] by simp
  have nd: "?rp \<notin> set (dirs fs)"
    using absent_not_exists(1) [OF assms(2)] by (simp add: dir_exists_def)
  have ini: "is_dir fs (butlast base') \<and> absent fs base' \<longrightarrow>
            init_storage base' fs = (fs\<lparr>dirs := dirs fs @ [base']\<rparr>, Inr ())"
    by (simp add: init_storage_def mkdir_absent)
  from ini g lm lf ie ga sf si nd absent_no_children [OF assms(2)] show ?thesis by blast
qed

theorem repo_dir_created_witness:
  "is_dir \<lparr>dirs = [[''issues'']], files = []\<rparr> [''issues''] \<and>
   absent \<lparr>dirs = [[''issues'']], files = []\<rparr> (repo_path [''issues''] ''acme/widgets'') \<and>
   is_dir \<lparr>dirs = [[''issues'']], files = []\<rparr> (butlast [''other'']) \<and>
   absent \<lparr>dirs = [[''issues'']], files = []\<rparr> [''other''] \<and>
   init_storage [''other''] \<lparr>dirs = [[''issues'']], files = []\<rparr>
     = (\<lparr>dirs = [[''issues''], [''other'']], files = []\<rparr>, Inr ()) \<and>
   load_metadata [''issues''] \<lparr>dirs = [[''issues'']], files = []\<rparr> ''acme/widgets''
     = (\<lparr>dirs = [[''issues''], [''issues'', ''acme-widgets'']], files = []\<rparr>, Inr empty_metadata) \<and>
   issue_exists [''issues''] \<lparr>dirs = [[''issues'']], files = []\<rparr> ''acme/widgets'' 1
     = (\<lparr>dirs = [[''issues''], [''issues'', ''acme-widgets'']], files = []\<rparr>, Inr False)"
proof -
  let ?fs = "\<lparr>dirs = [[''issues'']], files = []\<rparr>"
  have rp: "repo_path [''issues''] ''acme/widgets'' = [''issues'', ''acme-widgets'']"
    by (simp add: repo_path_cases repo_dir_name_def)
  have a: "is_dir ?fs [''issues'']" by (simp add: is_dir_def dir_exists_def)
  have b: "absent ?fs (repo_path [''issues''] ''acme/widgets'')"
    by (simp add: rp absent_def)
  have c: "is_dir ?fs (butlast [''other''])" by (simp add: is_dir_def dir_exists_def)
  have d: "absent ?fs [''other'']" by (simp add: absent_def)
  from repo_dir_created [OF a b, of "[''other'']" 1] a b c d show ?thesis
    by (simp add: rp)
qed

section \<open>Directory names and document paths\<close>



section \<open>Successful writes\<close>

lemma is_dir_Nil [simp]: "is_dir fs []"
  by (simp add: is_dir_def dir_exists_def)












section \<open>Reading the store\<close>

lemma wf_file_not_dir:
  "wf_filesys fs \<Longrightarrow> map_of (files fs) p = Some c \<Longrightarrow> \<not> dir_exists fs p"
  by (auto simp: wf_filesys_def dir_exists_def file_exists_def list_all_iff)

lemma read_json_doc:
  assumes "wf_filesys fs" and "is_dir fs d" and "map_of (files fs) (d @ [n]) = Some (JsonDoc v)"
  shows "read_json fs (d @ [n]) = Inr v" and "path_exists fs (d @ [n])"
proof -
  have pe: "parent_error fs (d @ [n]) = None" using assms(2) by (simp add: parent_error_child)
  with wf_file_not_dir [OF assms(1,3)] assms(3) show "read_json fs (d @ [n]) = Inr v"
    by (simp add: read_json_def)
  from pe assms(3) show "path_exists fs (d @ [n])"
    by (simp add: path_exists_def file_exists_def)
qed

lemma filter_not_reserved:
  "map_of d ''filters'' = None \<Longrightarrow> map_of d ''issues'' = None \<Longrightarrow>
   filter (\<lambda>kv. \<not> reserved_key (fst kv)) d = d"
  by (induction d) (auto simp: reserved_key_def split: if_splits)

text \<open>
  C5: on a store whose metadata document has no \<^verbatim>\<open>filters\<close> key,
  \<^verbatim>\<open>load_metadata\<close> returns empty filters and, as issues, the entries of the document
  under every key but the two reserved ones, in their order; when the document has no
  \<^verbatim>\<open>issues\<close> key either, these are all its entries. The state of the file system is
  returned as it was: the file is not rewritten.
\<close>

theorem load_metadata_legacy:
  assumes "wf_filesys fs"
    and "is_dir fs (repo_path base r)"
    and "map_of (files fs) (metadata_file (repo_path base r)) = Some (JsonDoc (PDict legacy))"
    and "map_of legacy ''filters'' = None"
  shows "load_metadata base fs r =
           (fs, Inr (PDict [(''filters'', PDict []),
                            (''issues'', PDict (filter (\<lambda>kv. \<not> reserved_key (fst kv)) legacy))])) \<and>
         (map_of legacy ''issues'' = None \<longrightarrow>
            filter (\<lambda>kv. \<not> reserved_key (fst kv)) legacy = legacy)"
proof -
  from assms(3) have f: "map_of (files fs) (repo_path base r @ [''.metadata.json'']) = Some (JsonDoc (PDict legacy))"
    by simp
  from read_json_doc [OF assms(1,2) f] assms(2,4) show ?thesis
    by (simp add: load_metadata_def get_repo_dir_existing upgrade_metadata_def filter_not_reserved)
qed

lemma wf_legacy_fs: "wf_filesys legacy_fs"
  by (simp add: wf_filesys_def legacy_fs_def file_exists_def)

lemma repo_path_acme: "repo_path [''issues''] ''acme/widgets'' = [''issues'', ''acme-widgets'']"
  by (simp add: repo_path_cases repo_dir_name_def)

lemma is_dir_legacy_fs: "is_dir legacy_fs (repo_path [''issues''] ''acme/widgets'')"
  by (simp add: repo_path_acme is_dir_def dir_exists_def legacy_fs_def)

theorem load_metadata_legacy_witness:
  "wf_filesys legacy_fs \<and>
   is_dir legacy_fs (repo_path [''issues''] ''acme/widgets'') \<and>
   map_of (files legacy_fs) (metadata_file (repo_path [''issues''] ''acme/widgets''))
     = Some (JsonDoc (PDict legacy_doc)) \<and>
   map_of legacy_doc ''filters'' = None \<and> map_of legacy_doc ''issues'' = None \<and>
   load_metadata [''issues''] legacy_fs ''acme/widgets'' =
     (legacy_fs, Inr (PDict [(''filters'', PDict []), (''issues'', PDict [(''123'', entry123)])]))"
proof -
  have b: "map_of (files legacy_fs) (metadata_file (repo_path [''issues''] ''acme/widgets''))
             = Some (JsonDoc (PDict legacy_doc))"
    by (simp add: legacy_fs_def repo_path_acme)
  have c: "map_of legacy_doc ''filters'' = None" "map_of legacy_doc ''issues'' = None"
    by (simp_all add: legacy_doc_def)
  from load_metadata_legacy [OF wf_legacy_fs is_dir_legacy_fs b c(1)] c(2)
  have "load_metadata [''issues''] legacy_fs ''acme/widgets'' =
          (legacy_fs, Inr (PDict [(''filters'', PDict []), (''issues'', PDict legacy_doc)]))"
    by simp
  with wf_legacy_fs is_dir_legacy_fs b c show ?thesis by (simp add: legacy_doc_def)
qed

section \<open>Updating the metadata of an old store\<close>

(*SLOW*)
lemma legacy_update:
  "update_metadata example_lib [''issues''] legacy_fs ''acme/widgets'' issue_closed
     = (legacy_updated, Inr ())"
  by code_simp

lemma legacy_updated_load:
  "load_metadata [''issues''] legacy_updated ''acme/widgets'' =
     (legacy_updated, Inr (PDict
        [(''123'', entry123), (''filters'', PDict []),
         (''issues'', PDict [(''1'', PDict
            [(''hash'', PStr ''{\"assignees\": [], \"body\": \"\", \"comments\": [], \"labels\": [], \"number\": 1, \"state\": \"closed\", \"title\": \"Bug\", \"updated_at\": \"t2\"}''),
             (''updated_at'', PStr ''t2''), (''state'', PStr ''closed'')])])]))"
  by code_simp

text \<open>
  C6 on a store in the old flat format: before the update \<^verbatim>\<open>load_metadata\<close> shows the
  entry of issue 123; \<^verbatim>\<open>_update_metadata\<close> for issue 1 succeeds, and afterwards the
  issues that \<^verbatim>\<open>load_metadata\<close> shows are the entry of issue 1 alone. The old entry is
  still in the file, at the top level, where no reader looks for it.
\<close>

theorem update_metadata_legacy_drops_entries:
  "load_metadata [''issues''] legacy_fs ''acme/widgets'' =
     (legacy_fs, Inr (PDict [(''filters'', PDict []), (''issues'', PDict [(''123'', entry123)])])) \<and>
   update_metadata example_lib [''issues''] legacy_fs ''acme/widgets'' issue_closed
     = (legacy_updated, Inr ()) \<and>
   bnd (snd (load_metadata [''issues''] legacy_updated ''acme/widgets''))
       (\<lambda>metadata. py_get metadata ''issues'' (PDict [])) =
     Inr (PDict [(''1'', PDict
            [(''hash'', PStr ''{\"assignees\": [], \"body\": \"\", \"comments\": [], \"labels\": [], \"number\": 1, \"state\": \"closed\", \"title\": \"Bug\", \"updated_at\": \"t2\"}''),
             (''updated_at'', PStr ''t2''), (''state'', PStr ''closed'')])])"
proof -
  have "load_metadata [''issues''] legacy_fs ''acme/widgets'' =
     (legacy_fs, Inr (PDict [(''filters'', PDict []), (''issues'', PDict [(''123'', entry123)])]))"
    by code_simp
  then show ?thesis
    by (simp add: legacy_update legacy_updated_load dict_get_def)
qed

(*/SLOW*)

section \<open>Saving an issue\<close>







lemma ensure_key_dict:
  "ensure_key metadata k = Inr m' \<Longrightarrow> set_issue_entry m' n entry = Inr m'' \<Longrightarrow> \<exists>d. m' = PDict d"
  by (cases m') (auto simp: set_issue_entry_def)










section \<open>The classification pass\<close>

lemma calculate_hash_hashable: "hashable i \<Longrightarrow> \<exists>h. calculate_hash lib i = Inr h"
  using hash_data_hashable [of i lib] by (auto simp: calculate_hash_def json_str_def)

lemma detect_issue_changes_total:
  "map_of i ''state'' \<noteq> None \<Longrightarrow> map_of i ''updated_at'' \<noteq> None \<Longrightarrow>
   \<exists>ds. detect_issue_changes lib i e = Inr ds"
  by (auto simp: detect_issue_changes_def getitem_def Let_def)

lemma entries_lookup:
  "entries stored \<Longrightarrow> map_of stored k = Some v \<Longrightarrow> \<exists>e. v = PDict e"
  by (cases v) (auto simp: entries_def list_all_iff dest!: map_of_SomeD)

lemma classify_issue_record:
  assumes "issue_record i" and "entries stored"
  shows "\<exists>ds. classify_issue lib stored ch i =
           Inr (case spec_bucket lib stored i of
                  New \<Rightarrow> ch\<lparr>new := new ch @ [i]\<rparr>
                | Updated \<Rightarrow> ch\<lparr>updated := updated ch @ [(i, ds)]\<rparr>
                | Unchanged \<Rightarrow> ch\<lparr>unchanged := unchanged ch @ [int_of (dict_get i ''number'' PNone)]\<rparr>)"
proof -
  from assms(1) have h: "hashable i" and pi: "is_PInt (dict_get i ''number'' PNone)"
    by (simp_all add: issue_record_def)
  from h obtain v where v: "map_of i ''number'' = Some v" by (auto simp: hashable_def)
  with pi obtain n where n: "map_of i ''number'' = Some (PInt n)"
    by (cases v) (simp_all add: dict_get_def)
  then have dg: "dict_get i ''number'' PNone = PInt n" by (simp add: dict_get_def)
  from h obtain hh where hh: "calculate_hash lib i = Inr hh"
    using calculate_hash_hashable by blast
  from h obtain ds where ds: "\<And>e. \<exists>ds. detect_issue_changes lib i e = Inr ds"
    using detect_issue_changes_total [of i lib] by (auto simp: hashable_def)
  show ?thesis
  proof (cases "map_of stored (py_str lib (PInt n))")
    case None
    then show ?thesis
      by (simp add: classify_issue_def getitem_Some n hh spec_bucket_def dg)
  next
    case (Some v)
    with entries_lookup [OF assms(2)] obtain e where e: "v = PDict e" by blast
    from ds [of e] obtain ds' where ds': "detect_issue_changes lib i e = Inr ds'" by blast
    show ?thesis
      using Some e ds'
      by (auto simp: classify_issue_def getitem_Some n hh spec_bucket_def dg int_of_number_def)
  qed
qed

lemma classify_all_partition:
  assumes "entries stored"
  shows "list_all issue_record issues \<Longrightarrow>
     \<exists>ch'. classify_all lib stored ch issues = Inr ch' \<and>
       new ch' = new ch @ filter (\<lambda>i. spec_bucket lib stored i = New) issues \<and>
       map fst (updated ch') =
         map fst (updated ch) @ filter (\<lambda>i. spec_bucket lib stored i = Updated) issues \<and>
       unchanged ch' = unchanged ch @
         map (\<lambda>i. int_of (dict_get i ''number'' PNone))
             (filter (\<lambda>i. spec_bucket lib stored i = Unchanged) issues)"
proof (induction issues arbitrary: ch)
  case Nil
  then show ?case by simp
next
  case (Cons i issues)
  then have i: "issue_record i" and rest: "list_all issue_record issues" by simp_all
  from classify_issue_record [OF i assms, of lib ch] obtain ds where
    c: "classify_issue lib stored ch i =
           Inr (case spec_bucket lib stored i of
                  New \<Rightarrow> ch\<lparr>new := new ch @ [i]\<rparr>
                | Updated \<Rightarrow> ch\<lparr>updated := updated ch @ [(i, ds)]\<rparr>
                | Unchanged \<Rightarrow> ch\<lparr>unchanged := unchanged ch @ [int_of (dict_get i ''number'' PNone)]\<rparr>)"
    by blast
  show ?case
  proof (cases "spec_bucket lib stored i")
    case New
    with c Cons.IH [OF rest, of "ch\<lparr>new := new ch @ [i]\<rparr>"] show ?thesis by auto
  next
    case Updated
    with c Cons.IH [OF rest, of "ch\<lparr>updated := updated ch @ [(i, ds)]\<rparr>"] show ?thesis by auto
  next
    case Unchanged
    with c Cons.IH [OF rest, of "ch\<lparr>unchanged := unchanged ch @ [int_of (dict_get i ''number'' PNone)]\<rparr>"]
    show ?thesis by auto
  qed
qed

lemma filter_buckets_length:
  "length (filter (\<lambda>i. f i = New) xs) + length (filter (\<lambda>i. f i = Updated) xs) +
   length (filter (\<lambda>i. f i = Unchanged) xs) = length xs"
proof (induction xs)
  case Nil
  show ?case by simp
next
  case (Cons x xs)
  then show ?case by (cases "f x") simp_all
qed

lemma mapM_issue_key: "list_all issue_record issues \<Longrightarrow> \<exists>ks. mapM (issue_key lib) issues = Inr ks"
proof (induction issues)
  case Nil
  show ?case by simp
next
  case (Cons i issues)
  then obtain ks where ks: "mapM (issue_key lib) issues = Inr ks" by auto
  from Cons.prems obtain v where "map_of i ''number'' = Some v"
    by (auto simp: issue_record_def hashable_def)
  then have "issue_key lib i = Inr (py_str lib v)" by (simp add: issue_key_def getitem_Some)
  with ks show ?case by simp
qed

text \<open>
  C1: on a store whose metadata loads, with dictionaries as stored entries, and on issue
  records that can be hashed and have an integer number, \<^verbatim>\<open>detect_changes\<close> returns
  a classification. Its three lists are the current issues, in their order, that the
  state machine of the specification sends to New, to Updated and to Unchanged: every
  current issue is in exactly one of them, and their lengths add up to the number of
  current issues.
\<close>

theorem detect_changes_partition:
  assumes "load_metadata base fs r = (fs', Inr metadata)"
    and "py_get metadata ''issues'' (PDict []) = Inr (PDict stored)"
    and "entries stored"
    and "list_all issue_record issues"
  shows "\<exists>ch. detect_changes lib base fs r issues = (fs', Inr ch) \<and>
     new ch = filter (\<lambda>i. spec_bucket lib stored i = New) issues \<and>
     map fst (updated ch) = filter (\<lambda>i. spec_bucket lib stored i = Updated) issues \<and>
     unchanged ch = map (\<lambda>i. int_of (dict_get i ''number'' PNone))
                        (filter (\<lambda>i. spec_bucket lib stored i = Unchanged) issues) \<and>
     length (new ch) + length (updated ch) + length (unchanged ch) = length issues"
proof -
  from classify_all_partition [OF assms(3,4), of lib "\<lparr>new = [], updated = [], unchanged = []\<rparr>"]
  obtain ch where ch: "classify_all lib stored \<lparr>new = [], updated = [], unchanged = []\<rparr> issues = Inr ch"
    "new ch = filter (\<lambda>i. spec_bucket lib stored i = New) issues"
    "map fst (updated ch) = filter (\<lambda>i. spec_bucket lib stored i = Updated) issues"
    "unchanged ch = map (\<lambda>i. int_of (dict_get i ''number'' PNone))
                        (filter (\<lambda>i. spec_bucket lib stored i = Unchanged) issues)"
    by auto
  from mapM_issue_key [OF assms(4), of lib] obtain ks where ks: "mapM (issue_key lib) issues = Inr ks"
    by blast
  have dc: "detect_changes lib base fs r issues = (fs', Inr ch)"
    using assms(1,2) ks ch(1) by (simp add: detect_changes_def)
  have lu: "length (updated ch) = length (filter (\<lambda>i. spec_bucket lib stored i = Updated) issues)"
    using ch(3) by (metis length_map)
  have "length (new ch) + length (updated ch) + length (unchanged ch) = length issues"
    unfolding lu unfolding ch(2,4) length_map by (rule filter_buckets_length)
  with dc ch(2,3,4) show ?thesis by blast
qed

(*SLOW*)
lemma saved_once_load:
  "load_metadata [''issues''] saved_once ''acme/widgets'' =
     (saved_once, Inr (PDict [(''filters'', PDict []), (''issues'', PDict saved_stored)]))"
  by code_simp

lemma example_buckets:
  "filter (\<lambda>i. spec_bucket example_lib saved_stored i = New) [issue_closed, issue_reopened, issue_two]
     = [issue_two]"
  "filter (\<lambda>i. spec_bucket example_lib saved_stored i = Updated) [issue_closed, issue_reopened, issue_two]
     = [issue_reopened]"
  "map (\<lambda>i. int_of (dict_get i ''number'' PNone))
     (filter (\<lambda>i. spec_bucket example_lib saved_stored i = Unchanged) [issue_closed, issue_reopened, issue_two])
     = [1]"
  by code_simp+

theorem detect_changes_partition_witness:
  "load_metadata [''issues''] saved_once ''acme/widgets'' =
     (saved_once, Inr (PDict [(''filters'', PDict []), (''issues'', PDict saved_stored)])) \<and>
   py_get (PDict [(''filters'', PDict []), (''issues'', PDict saved_stored)]) ''issues'' (PDict [])
     = Inr (PDict saved_stored) \<and>
   entries saved_stored \<and>
   list_all issue_record [issue_closed, issue_reopened, issue_two] \<and>
   (\<exists>ch. detect_changes example_lib [''issues''] saved_once ''acme/widgets''
           [issue_closed, issue_reopened, issue_two] = (saved_once, Inr ch) \<and>
         new ch = [issue_two] \<and> map fst (updated ch) = [issue_reopened] \<and> unchanged ch = [1] \<and>
         length (new ch) + length (updated ch) + length (unchanged ch) = 3)"
proof -
  have a: "py_get (PDict [(''filters'', PDict []), (''issues'', PDict saved_stored)]) ''issues'' (PDict [])
     = Inr (PDict saved_stored)"
    by (simp add: dict_get_def)
  have b: "entries saved_stored" by (simp add: entries_def saved_stored_def)
  have c: "list_all issue_record [issue_closed, issue_reopened, issue_two]"
    by (simp add: issue_record_def hashable_def dict_get_def issue_closed_def issue_reopened_def
        issue_two_def)
  from detect_changes_partition [OF saved_once_load a b c, of example_lib]
  have "\<exists>ch. detect_changes example_lib [''issues''] saved_once ''acme/widgets''
           [issue_closed, issue_reopened, issue_two] = (saved_once, Inr ch) \<and>
         new ch = [issue_two] \<and> map fst (updated ch) = [issue_reopened] \<and> unchanged ch = [1] \<and>
         length (new ch) + length (updated ch) + length (unchanged ch) = 3"
    unfolding example_buckets by (simp add: numeral_3_eq_3)
  with saved_once_load a b c show ?thesis by blast
qed
(*/SLOW*)

end
